theory Spec2Isabelle
  imports Complex_Main "HOL-Library.Char_ord" "HOL-Library.List_Lexorder" "HOL-Library.Sublist"
begin

section \<open>Resume screener: the scoring engine\<close>

text \<open>
  A shallow embedding of \<^verbatim>\<open>screener/scoring.py\<close> (class \<^verbatim>\<open>ResumeMatcher\<close>) and of
  \<^verbatim>\<open>screener/nlp.py\<close> (class \<^verbatim>\<open>SkillExtractor\<close>, function \<^verbatim>\<open>preprocess_text\<close>).

  Conventions of the model:
  \<^item> a Python \<^verbatim>\<open>str\<close> is a \<open>string\<close>; a \<open>char\<close> stands for the code point of the
    same number, so the model covers the texts whose code points are below 256;
  \<^item> strings are compared as Python compares them, lexicographically by code point
    (the order of \<open>HOL-Library.List_Lexorder\<close> over \<open>HOL-Library.Char_ord\<close>);
  \<^item> a Python \<^verbatim>\<open>float\<close> is the real number it denotes; comparisons of a float with
    an integer literal are exact in Python, and so they are here;
  \<^item> a Python \<^verbatim>\<open>dict\<close> with string keys is a map \<open>string \<rightharpoonup> 'v\<close>, or an association
    list where the order of insertion matters; a Python \<^verbatim>\<open>set\<close> is a finite \<open>set\<close>;
  \<^item> an exception is the \<open>Inl\<close> branch of a sum.
\<close>

subsection \<open>Values and exceptions\<close>

datatype exn = KeyError string | ValueError string | OtherException string

text \<open>The values stored in the \<^verbatim>\<open>details\<close> dictionary: lists of skill names and counts.\<close>

datatype pyval = PList "string list" | PInt int

type_synonym details = "string \<rightharpoonup> pyval"

text \<open>
  The dictionary returned by \<^verbatim>\<open>SkillExtractor.extract_skills\<close>. The matcher reads
  \<^verbatim>\<open>by_category\<close> with \<^verbatim>\<open>.get("by_category", {})\<close>, so the key may be absent: \<open>None\<close>.
\<close>

record skill_extraction =
  by_category :: "(string \<times> string list) list option"
  frequencies :: "(string \<times> nat) list"
  total_unique :: nat

subsection \<open>\<^verbatim>\<open>calculate_skill_match_score\<close>\<close>

text \<open>
  \<^verbatim>\<open>for category, skills in d.get("by_category", {}).items(): flat.update(skills)\<close>,
  starting from the empty set.
\<close>

definition flatten_skills :: "skill_extraction \<Rightarrow> string set" where
  "flatten_skills d =
     fold (\<lambda>(category, skills) flat. flat \<union> set skills)
          (case by_category d of None \<Rightarrow> [] | Some items \<Rightarrow> items) {}"

definition calculate_skill_match_score ::
    "skill_extraction \<Rightarrow> skill_extraction \<Rightarrow> real \<times> details" where
  "calculate_skill_match_score resume_skills jd_skills =
     (let resume_flat = flatten_skills resume_skills;
          jd_flat = flatten_skills jd_skills
      in if jd_flat = {} then
           (1, [''matched'' \<mapsto> PList [], ''missing'' \<mapsto> PList [], ''required'' \<mapsto> PInt 0])
         else
           let matched = resume_flat \<inter> jd_flat;
               missing = jd_flat - resume_flat;
               score = (if jd_flat \<noteq> {} then real (card matched) / real (card jd_flat) else 0)
           in (score,
               [''matched'' \<mapsto> PList (sorted_list_of_set matched),
                ''missing'' \<mapsto> PList (sorted_list_of_set missing),
                ''required'' \<mapsto> PInt (int (card jd_flat)),
                ''found'' \<mapsto> PInt (int (card resume_flat))]))"

subsection \<open>\<^verbatim>\<open>generate_composite_score\<close>\<close>

text \<open>
  \<^verbatim>\<open>weights\<close> is \<^verbatim>\<open>None\<close> or a dictionary; \<^verbatim>\<open>weights["similarity"]\<close> and
  \<^verbatim>\<open>weights["skills"]\<close> raise \<^verbatim>\<open>KeyError\<close> on a missing key, in this order.
\<close>

definition subscript :: "(string \<rightharpoonup> 'v) \<Rightarrow> string \<Rightarrow> exn + 'v" where
  "subscript d k = (case d k of None \<Rightarrow> Inl (KeyError k) | Some v \<Rightarrow> Inr v)"

definition default_weights :: "string \<rightharpoonup> real" where
  "default_weights = [''similarity'' \<mapsto> 0.5, ''skills'' \<mapsto> 0.5]"

text \<open>\<^verbatim>\<open>if weights is None: weights = {"similarity": 0.5, "skills": 0.5}\<close>\<close>

definition weights_in_force :: "(string \<rightharpoonup> real) option \<Rightarrow> string \<rightharpoonup> real" where
  "weights_in_force weights = (case weights of None \<Rightarrow> default_weights | Some w \<Rightarrow> w)"

definition generate_composite_score ::
    "real \<Rightarrow> real \<Rightarrow> (string \<rightharpoonup> real) option \<Rightarrow> exn + real" where
  "generate_composite_score similarity_score skill_match_score weights =
     (let weights = weights_in_force weights
      in case subscript weights ''similarity'' of
           Inl e \<Rightarrow> Inl e
         | Inr w_similarity \<Rightarrow>
             (case subscript weights ''skills'' of
                Inl e \<Rightarrow> Inl e
              | Inr w_skills \<Rightarrow>
                  (let composite = similarity_score * w_similarity + skill_match_score * w_skills
                   in Inr (composite * 100))))"

subsection \<open>\<^verbatim>\<open>_score_to_rating\<close>\<close>

text \<open>
  The function returns one of five constant strings, of one to five star characters
  (code point U+2B50); \<open>Stars k\<close> stands for the string of \<open>k\<close> stars.
\<close>

datatype rating = Stars nat

definition score_to_rating :: "real \<Rightarrow> rating" where
  "score_to_rating score =
     (if score \<ge> 80 then Stars 5
      else if score \<ge> 60 then Stars 4
      else if score \<ge> 40 then Stars 3
      else if score \<ge> 20 then Stars 2
      else Stars 1)"

subsection \<open>\<^verbatim>\<open>calculate_similarity_score\<close>\<close>

text \<open>
  The body of the \<^verbatim>\<open>try\<close> block calls scikit-learn (\<^verbatim>\<open>TfidfVectorizer.fit_transform\<close>
  and \<^verbatim>\<open>cosine_similarity\<close>), which is not part of the repository. It is the parameter
  \<open>tfidf_cosine\<close>: for two texts it gives the float that the library computes, or the
  exception that it raises. \<^verbatim>\<open>except Exception\<close> turns every exception into \<^verbatim>\<open>0.0\<close>.
\<close>

definition calculate_similarity_score ::
    "(string \<Rightarrow> string \<Rightarrow> exn + real) \<Rightarrow> string \<Rightarrow> string \<Rightarrow> exn + real" where
  "calculate_similarity_score tfidf_cosine resume_text jd_text =
     (case tfidf_cosine resume_text jd_text of
        Inr similarity \<Rightarrow> Inr similarity
      | Inl e \<Rightarrow> Inr 0)"

subsection \<open>Characters and \<^verbatim>\<open>str\<close> methods\<close>

text \<open>
  Python's \<^verbatim>\<open>str.isspace\<close>, which is also the class \<^verbatim>\<open>\s\<close> of \<^verbatim>\<open>re\<close> on a \<^verbatim>\<open>str\<close> pattern,
  for the code points below 256: 9 to 13, 28 to 32, 133 and 160.
\<close>

definition isspace :: "char \<Rightarrow> bool" where
  "isspace c =
     (let n = (of_char c :: nat)
      in (9 \<le> n \<and> n \<le> 13) \<or> (28 \<le> n \<and> n \<le> 32) \<or> n = 133 \<or> n = 160)"

text \<open>
  \<^verbatim>\<open>str.lower\<close> for the code points below 256: the letters A to Z and the upper-case
  letters of Latin-1 (192 to 222 but for the multiplication sign 215) move up by 32.
\<close>

definition lower_char :: "char \<Rightarrow> char" where
  "lower_char c =
     (let n = (of_char c :: nat)
      in if (65 \<le> n \<and> n \<le> 90) \<or> (192 \<le> n \<and> n \<le> 222 \<and> n \<noteq> 215)
         then char_of (n + 32) else c)"

definition lower :: "string \<Rightarrow> string" where
  "lower text = map lower_char text"

text \<open>
  The class \<^verbatim>\<open>\w\<close> of \<^verbatim>\<open>re\<close> on a \<^verbatim>\<open>str\<close> pattern (alphanumeric or underscore) for the
  code points below 256.
\<close>

definition is_word_char :: "char \<Rightarrow> bool" where
  "is_word_char c =
     (let n = (of_char c :: nat)
      in (48 \<le> n \<and> n \<le> 57) \<or> (65 \<le> n \<and> n \<le> 90) \<or> n = 95 \<or> (97 \<le> n \<and> n \<le> 122)
         \<or> n = 170 \<or> n = 178 \<or> n = 179 \<or> n = 181 \<or> n = 185 \<or> n = 186
         \<or> (188 \<le> n \<and> n \<le> 190) \<or> (192 \<le> n \<and> n \<le> 214)
         \<or> (216 \<le> n \<and> n \<le> 246) \<or> (248 \<le> n \<and> n \<le> 255))"

text \<open>\<^verbatim>\<open>str.split()\<close> without arguments: the maximal runs of non-whitespace characters.\<close>

function split :: "string \<Rightarrow> string list" where
  "split [] = []"
| "split (c # cs) =
     (if isspace c then split cs
      else (c # takeWhile (\<lambda>x. \<not> isspace x) cs) # split (dropWhile (\<lambda>x. \<not> isspace x) cs))"
  by pat_completeness auto
termination
  by (relation "measure length") (auto simp: less_Suc_eq_le length_dropWhile_le)

text \<open>\<^verbatim>\<open>str.strip()\<close> without arguments: leading and trailing whitespace removed.\<close>

definition strip :: "string \<Rightarrow> string" where
  "strip text = rev (dropWhile isspace (rev (dropWhile isspace text)))"

subsection \<open>\<^verbatim>\<open>generate_feedback\<close>\<close>

text \<open>
  The feedback is a list of lines joined by newlines. Each line is one of seven fixed
  templates; the model keeps the template and the values that fill it, not the
  rendered text:
  \<^item> \<open>Assessment b\<close>: the headline of the score band \<open>b\<close>;
  \<^item> \<open>MatchedSkills names more\<close>: \<^verbatim>\<open>Matched Skills:\<close> with the names joined by commas
    and \<^verbatim>\<open>(+N more)\<close> when \<open>more = Some N\<close>; likewise \<open>MissingSkills\<close>;
  \<^item> \<open>SkillCoverage found required\<close>: \<^verbatim>\<open>Skill Coverage: found/required total skills found\<close>;
  \<^item> \<open>ResumeIncludes found\<close>: \<^verbatim>\<open>Resume includes found relevant skills\<close>;
  \<^item> \<open>NoteShort\<close> and \<open>NoteLong\<close>: the two notes on the length of the resume.
\<close>

datatype band = Excellent | Good | Partial | Limited

datatype feedback_line =
    Assessment band
  | MatchedSkills "string list" "int option"
  | MissingSkills "string list" "int option"
  | SkillCoverage int int
  | ResumeIncludes int
  | NoteShort
  | NoteLong

text \<open>
  \<^verbatim>\<open>d.get(key, [])\<close> and \<^verbatim>\<open>d.get(key, 0)\<close> on the dictionary built by
  \<open>calculate_skill_match_score\<close>, whose lists are under \<^verbatim>\<open>matched\<close> and \<^verbatim>\<open>missing\<close> and
  whose counts are under \<^verbatim>\<open>required\<close> and \<^verbatim>\<open>found\<close>.
\<close>

definition get_list :: "details \<Rightarrow> string \<Rightarrow> string list" where
  "get_list d k = (case d k of Some (PList xs) \<Rightarrow> xs | _ \<Rightarrow> [])"

definition get_int :: "details \<Rightarrow> string \<Rightarrow> int" where
  "get_int d k = (case d k of Some (PInt n) \<Rightarrow> n | _ \<Rightarrow> 0)"

definition assessment :: "real \<Rightarrow> band" where
  "assessment composite_score =
     (if composite_score \<ge> 80 then Excellent
      else if composite_score \<ge> 60 then Good
      else if composite_score \<ge> 40 then Partial
      else Limited)"

definition generate_feedback :: "string \<Rightarrow> string \<Rightarrow> details \<Rightarrow> real \<Rightarrow> feedback_line list" where
  "generate_feedback resume_text jd_text skill_match_details composite_score =
     (let fb = [Assessment (assessment composite_score)];
          matched = get_list skill_match_details ''matched'';
          missing = get_list skill_match_details ''missing'';
          required = get_int skill_match_details ''required'';
          found = get_int skill_match_details ''found'';
          fb = (if matched \<noteq> [] then
                  fb @ [MatchedSkills (take 5 matched)
                          (if length matched > 5 then Some (int (length matched) - 5) else None)]
                else fb);
          fb = (if missing \<noteq> [] then
                  fb @ [MissingSkills (take 3 missing)
                          (if length missing > 3 then Some (int (length missing) - 3) else None)]
                else fb);
          fb = fb @ [if required \<noteq> 0 then SkillCoverage found required else ResumeIncludes found];
          resume_words = length (split resume_text);
          fb = (if resume_words < 100 then fb @ [NoteShort]
                else if resume_words > 1500 then fb @ [NoteLong]
                else fb)
      in fb)"

subsection \<open>\<^verbatim>\<open>score_resume\<close>\<close>

text \<open>
  \<^verbatim>\<open>round(x, 2)\<close> on a float: the nearest multiple of \<open>1/100\<close>, a tie going to the even
  multiple.
\<close>

definition round_half_even :: "real \<Rightarrow> int" where
  "round_half_even x =
     (let f = \<lfloor>x\<rfloor>; d = x - of_int f
      in if d < 1/2 then f else if d > 1/2 then f + 1 else if even f then f else f + 1)"

definition py_round :: "real \<Rightarrow> nat \<Rightarrow> real" where
  "py_round x ndigits = of_int (round_half_even (x * 10 ^ ndigits)) / 10 ^ ndigits"

record scoring_result =
  final_score :: real
  similarity_score :: real
  skill_match_score :: real
  skill_details :: details
  feedback :: "feedback_line list"
  rating :: rating

definition score_resume ::
    "(string \<Rightarrow> string \<Rightarrow> exn + real) \<Rightarrow> string \<Rightarrow> string \<Rightarrow>
     skill_extraction \<Rightarrow> skill_extraction \<Rightarrow> (string \<rightharpoonup> real) option \<Rightarrow> exn + scoring_result" where
  "score_resume tfidf_cosine resume_text jd_text resume_skills jd_skills weights =
     (case calculate_similarity_score tfidf_cosine resume_text jd_text of
        Inl e \<Rightarrow> Inl e
      | Inr similarity \<Rightarrow>
          (case calculate_skill_match_score resume_skills jd_skills of
             (skill_match, details) \<Rightarrow>
               (case generate_composite_score similarity skill_match weights of
                  Inl e \<Rightarrow> Inl e
                | Inr composite \<Rightarrow>
                    Inr \<lparr>final_score = py_round composite 2,
                         similarity_score = py_round (similarity * 100) 2,
                         skill_match_score = py_round (skill_match * 100) 2,
                         skill_details = details,
                         feedback = generate_feedback resume_text jd_text details composite,
                         rating = score_to_rating composite\<rparr>)))"

section \<open>Text processing\<close>

subsection \<open>\<^verbatim>\<open>SkillExtractor\<close>\<close>

text \<open>
  The taxonomy is the dictionary read from the JSON file, category to list of skills, in
  the order of the file. \<^verbatim>\<open>stop_words\<close> is not used by the methods modelled here.
\<close>

type_synonym taxonomy = "(string \<times> string list) list"

record skill_extractor =
  skills_taxonomy :: taxonomy
  all_skills :: "(string \<times> string) list"

definition get_default_skills :: taxonomy where
  "get_default_skills =
     [(''programming_languages'',
         [''python'', ''java'', ''javascript'', ''c++'', ''c#'', ''php'', ''ruby'', ''go'',
          ''rust'', ''kotlin'']),
      (''web_frameworks'',
         [''django'', ''flask'', ''fastapi'', ''react'', ''angular'', ''vue'', ''express'',
          ''spring'']),
      (''databases'',
         [''sql'', ''mysql'', ''postgresql'', ''mongodb'', ''oracle'', ''redis'', ''cassandra'']),
      (''cloud'',
         [''aws'', ''azure'', ''gcp'', ''google cloud'', ''kubernetes'', ''docker'', ''gke'']),
      (''data_science'',
         [''pandas'', ''numpy'', ''scikit-learn'', ''tensorflow'', ''pytorch'', ''r'', ''spark'']),
      (''tools'', [''git'', ''jira'', ''linux'', ''unix'', ''agile'', ''scrum''])]"

text \<open>
  \<^verbatim>\<open>_load_skills_taxonomy\<close>: \<open>loaded\<close> is the outcome of opening the file and parsing its
  JSON, a taxonomy or the exception raised; every exception gives the default taxonomy.
\<close>

definition load_skills_taxonomy :: "exn + taxonomy \<Rightarrow> taxonomy" where
  "load_skills_taxonomy loaded =
     (case loaded of Inr t \<Rightarrow> t | Inl e \<Rightarrow> get_default_skills)"

text \<open>
  \<^verbatim>\<open>d[k] = v\<close> on a dictionary that keeps the order of insertion: a key already present
  keeps its place and takes the new value, a new key goes to the end.
\<close>

fun dict_set :: "('k \<times> 'v) list \<Rightarrow> 'k \<Rightarrow> 'v \<Rightarrow> ('k \<times> 'v) list" where
  "dict_set [] k v = [(k, v)]"
| "dict_set ((k', v') # d) k v =
     (if k' = k then (k, v) # d else (k', v') # dict_set d k v)"

definition flatten_skills_taxonomy :: "taxonomy \<Rightarrow> (string \<times> string) list" where
  "flatten_skills_taxonomy t =
     fold (\<lambda>(category, skills) flattened.
             fold (\<lambda>skill flattened. dict_set flattened (lower skill) category) skills flattened)
          t []"

definition init_skill_extractor :: "exn + taxonomy \<Rightarrow> skill_extractor" where
  "init_skill_extractor loaded =
     (let t = load_skills_taxonomy loaded
      in \<lparr>skills_taxonomy = t, all_skills = flatten_skills_taxonomy t\<rparr>)"

text \<open>
  The pattern \<^verbatim>\<open>r'\b' + re.escape(skill) + r'\b'\<close>. \<^verbatim>\<open>\b\<close> matches at position \<open>i\<close> of the
  text when exactly one of the characters before and after the position is a word
  character; outside the text there is no word character.
\<close>

definition is_boundary :: "string \<Rightarrow> nat \<Rightarrow> bool" where
  "is_boundary text i =
     ((0 < i \<and> i \<le> length text \<and> is_word_char (text ! (i - 1)))
        \<noteq> (i < length text \<and> is_word_char (text ! i)))"

definition match_at :: "string \<Rightarrow> string \<Rightarrow> nat \<Rightarrow> bool" where
  "match_at skill text i =
     (is_boundary text i \<and> take (length skill) (drop i text) = skill
        \<and> is_boundary text (i + length skill))"

text \<open>
  \<^verbatim>\<open>len(re.findall(pattern, text))\<close>: the scan goes from left to right; after a match it
  goes on at the end of the match (one character further when the match is empty), so
  the matches counted do not overlap.
\<close>

function findall_count :: "string \<Rightarrow> string \<Rightarrow> nat \<Rightarrow> nat" where
  "findall_count skill text i =
     (if length text < i then 0
      else if match_at skill text i
        then Suc (findall_count skill text (i + max 1 (length skill)))
      else findall_count skill text (Suc i))"
  by pat_completeness auto
termination
  by (relation "measure (\<lambda>(skill, text, i). Suc (length text) - i)") auto

declare findall_count.simps [simp del]

text \<open>
  \<^verbatim>\<open>skills_found[category].append(skill)\<close>, after \<^verbatim>\<open>skills_found[category] = []\<close> when
  the category is new.
\<close>

fun dict_append :: "('k \<times> 'v list) list \<Rightarrow> 'k \<Rightarrow> 'v \<Rightarrow> ('k \<times> 'v list) list" where
  "dict_append [] k v = [(k, [v])]"
| "dict_append ((k', vs) # d) k v =
     (if k' = k then (k', vs @ [v]) # d else (k', vs) # dict_append d k v)"

text \<open>
  The loop runs over the keys of \<^verbatim>\<open>all_skills\<close> and reads \<^verbatim>\<open>all_skills[skill]\<close> for the
  category; the model runs over the items, which is the same.
\<close>

definition extract_skills :: "skill_extractor \<Rightarrow> string \<Rightarrow> int \<Rightarrow> skill_extraction" where
  "extract_skills self text threshold =
     (let text_lower = lower text;
          (skills_found, skill_frequencies) =
            fold (\<lambda>(skill, category) (skills_found, skill_frequencies).
                    let count = findall_count skill text_lower 0
                    in if int count \<ge> threshold
                       then (dict_append skills_found category skill,
                             dict_set skill_frequencies skill count)
                       else (skills_found, skill_frequencies))
                 (all_skills self) ([], [])
      in \<lparr>by_category = Some skills_found,
          frequencies = skill_frequencies,
          total_unique = length skill_frequencies\<rparr>)"

text \<open>
  The count that the specification asks for: the positions where the skill stands as a
  whole word, neither preceded nor followed by a word character.
\<close>

definition whole_word_at :: "string \<Rightarrow> string \<Rightarrow> nat \<Rightarrow> bool" where
  "whole_word_at skill text i =
     (take (length skill) (drop i text) = skill
        \<and> \<not> (0 < i \<and> is_word_char (text ! (i - 1)))
        \<and> \<not> (i + length skill < length text \<and> is_word_char (text ! (i + length skill))))"

definition whole_word_count :: "string \<Rightarrow> string \<Rightarrow> nat" where
  "whole_word_count skill text =
     length (filter (whole_word_at skill text) [0..<Suc (length text)])"

subsection \<open>\<^verbatim>\<open>preprocess_text\<close>\<close>

text \<open>
  \<^verbatim>\<open>re.sub(r'http\S+|www\S+', '', text)\<close>. A match starts where the text reads \<^verbatim>\<open>http\<close>
  or \<^verbatim>\<open>www\<close> followed by at least one non-whitespace character, and \<^verbatim>\<open>\S+\<close> is greedy,
  so the match runs up to the next whitespace character or the end of the text. The
  scan copies the characters where no match starts and goes on after each match.
\<close>

definition url_at :: "string \<Rightarrow> bool" where
  "url_at s =
     ((take 4 s = ''http'' \<and> (case drop 4 s of [] \<Rightarrow> False | c # _ \<Rightarrow> \<not> isspace c))
      \<or> (take 3 s = ''www'' \<and> (case drop 3 s of [] \<Rightarrow> False | c # _ \<Rightarrow> \<not> isspace c)))"

function remove_urls :: "string \<Rightarrow> string" where
  "remove_urls [] = []"
| "remove_urls (c # cs) =
     (if url_at (c # cs) then remove_urls (dropWhile (\<lambda>x. \<not> isspace x) cs)
      else c # remove_urls cs)"
  by pat_completeness auto
termination
  by (relation "measure length") (auto simp: less_Suc_eq_le length_dropWhile_le)

text \<open>
  \<^verbatim>\<open>re.sub(r'\S+@\S+', '', text)\<close>. A match starts at a position when the run of
  non-whitespace characters from there has an \<^verbatim>\<open>@\<close> that is neither its first nor its
  last character; both \<^verbatim>\<open>\S+\<close> are greedy, so the match is the whole run.
\<close>

definition email_at :: "string \<Rightarrow> bool" where
  "email_at s = (CHR ''@'' \<in> set (butlast (tl (takeWhile (\<lambda>x. \<not> isspace x) s))))"

function remove_emails :: "string \<Rightarrow> string" where
  "remove_emails [] = []"
| "remove_emails (c # cs) =
     (if email_at (c # cs) then remove_emails (dropWhile (\<lambda>x. \<not> isspace x) cs)
      else c # remove_emails cs)"
  by pat_completeness auto
termination
  by (relation "measure length") (auto simp: less_Suc_eq_le length_dropWhile_le)

text \<open>\<^verbatim>\<open>re.sub(r'\s+', ' ', text)\<close>: every maximal run of whitespace becomes one space.\<close>

function collapse_whitespace :: "string \<Rightarrow> string" where
  "collapse_whitespace [] = []"
| "collapse_whitespace (c # cs) =
     (if isspace c then CHR '' '' # collapse_whitespace (dropWhile isspace cs)
      else c # collapse_whitespace cs)"
  by pat_completeness auto
termination
  by (relation "measure length") (auto simp: less_Suc_eq_le length_dropWhile_le)

definition preprocess_text :: "string \<Rightarrow> string" where
  "preprocess_text text =
     (let text = lower text;
          text = remove_urls text;
          text = remove_emails text;
          text = collapse_whitespace text
      in strip text)"

subsection \<open>Normal forms of \<^verbatim>\<open>preprocess_text\<close>\<close>

text \<open>
  Four predicates on a text: no match of the URL pattern starts anywhere in it; no match
  of the e-mail pattern starts anywhere in it; every whitespace character is a single
  space followed by a non-whitespace character or by the end; it neither begins nor
  ends with whitespace.
\<close>

fun url_free :: "string \<Rightarrow> bool" where
  "url_free [] = True"
| "url_free (c # cs) = (\<not> url_at (c # cs) \<and> url_free cs)"

fun email_free :: "string \<Rightarrow> bool" where
  "email_free [] = True"
| "email_free (c # cs) = (\<not> email_at (c # cs) \<and> email_free cs)"

fun collapsed :: "string \<Rightarrow> bool" where
  "collapsed [] = True"
| "collapsed (c # cs) =
     ((isspace c \<longrightarrow> c = CHR '' '' \<and> (case cs of [] \<Rightarrow> True | d # _ \<Rightarrow> \<not> isspace d)) \<and> collapsed cs)"

definition stripped :: "string \<Rightarrow> bool" where
  "stripped s = (s = [] \<or> (\<not> isspace (hd s) \<and> \<not> isspace (last s)))"


section \<open>Example inputs\<close>

text \<open>A candidate with the skills python and django, a posting that asks for python and java.\<close>

definition ex_resume :: skill_extraction where
  "ex_resume =
     \<lparr>by_category = Some [(''programming_languages'', [''python'']),
                           (''web_frameworks'', [''django''])],
      frequencies = [(''python'', 1), (''django'', 1)],
      total_unique = 2\<rparr>"

definition ex_jd :: skill_extraction where
  "ex_jd =
     \<lparr>by_category = Some [(''programming_languages'', [''python'', ''java''])],
      frequencies = [(''python'', 1), (''java'', 1)],
      total_unique = 2\<rparr>"

text \<open>What \<open>extract_skills\<close> returns for a text without any skill of the taxonomy.\<close>

definition ex_no_skills :: skill_extraction where
  "ex_no_skills = \<lparr>by_category = Some [], frequencies = [], total_unique = 0\<rparr>"

text \<open>A library call that finds no vocabulary in the two texts and raises.\<close>

definition empty_vocabulary :: "string \<Rightarrow> string \<Rightarrow> exn + real" where
  "empty_vocabulary a b = Inl (ValueError ''empty vocabulary'')"


text \<open>Weights that count the skills only, a little below 0.8.\<close>

definition ex_weights :: "string \<rightharpoonup> real" where
  "ex_weights = [''similarity'' \<mapsto> 0, ''skills'' \<mapsto> 0.79999]"

text \<open>The extractor built when the taxonomy file cannot be read: the default taxonomy.\<close>

definition ex_extractor :: skill_extractor where
  "ex_extractor = init_skill_extractor (Inl (OtherException ''skills.json not found''))"


section \<open>Properties of the scoring engine\<close>

subsection \<open>Auxiliary facts\<close>

lemma fold_union_acc:
  "fold (\<lambda>(category, skills) flat. flat \<union> set skills) items acc
     = acc \<union> (\<Union>p \<in> set items. set (snd p))"
  by (induction items arbitrary: acc) (auto split: prod.splits)

lemma flatten_skills_eq:
  "flatten_skills d =
     (\<Union>p \<in> set (case by_category d of None \<Rightarrow> [] | Some items \<Rightarrow> items). set (snd p))"
  by (simp add: flatten_skills_def fold_union_acc)

lemma finite_flatten_skills: "finite (flatten_skills d)"
  unfolding flatten_skills_eq by (cases "by_category d") simp_all

lemma flatten_ex_resume: "flatten_skills ex_resume = {''python'', ''django''}"
  by (auto simp: flatten_skills_def ex_resume_def)

lemma flatten_ex_jd: "flatten_skills ex_jd = {''python'', ''java''}"
  by (auto simp: flatten_skills_def ex_jd_def)

lemma flatten_ex_no_skills: "flatten_skills ex_no_skills = {}"
  by (simp add: flatten_skills_def ex_no_skills_def)

lemma split_example: "length (split ''python django'') = 2"
  by (simp add: isspace_def)

lemma similarity_value:
  "calculate_similarity_score lib a b = Inr (case lib a b of Inl e \<Rightarrow> 0 | Inr v \<Rightarrow> v)"
  by (simp add: calculate_similarity_score_def split: sum.splits)

lemma score_resume_cases:
  "score_resume lib rt jt rs js w =
     (case generate_composite_score (case lib rt jt of Inl e \<Rightarrow> 0 | Inr v \<Rightarrow> v)
             (fst (calculate_skill_match_score rs js)) w of
        Inl e \<Rightarrow> Inl e
      | Inr composite \<Rightarrow>
          Inr \<lparr>final_score = py_round composite 2,
               similarity_score = py_round ((case lib rt jt of Inl e \<Rightarrow> 0 | Inr v \<Rightarrow> v) * 100) 2,
               skill_match_score = py_round (fst (calculate_skill_match_score rs js) * 100) 2,
               skill_details = snd (calculate_skill_match_score rs js),
               feedback = generate_feedback rt jt (snd (calculate_skill_match_score rs js)) composite,
               rating = score_to_rating composite\<rparr>)"
  by (simp add: score_resume_def similarity_value split: prod.splits sum.splits)

lemma composite_value:
  assumes "weights_in_force weights ''similarity'' = Some a"
      and "weights_in_force weights ''skills'' = Some b"
  shows "generate_composite_score s k weights = Inr ((s * a + k * b) * 100)"
  using assms by (simp add: generate_composite_score_def subscript_def Let_def)

lemma default_weights_in_force:
  "weights_in_force None ''similarity'' = Some 0.5" "weights_in_force None ''skills'' = Some 0.5"
  by (simp_all add: weights_in_force_def default_weights_def)

lemma hd_generate_feedback:
  "hd (generate_feedback rt jt d c) = Assessment (assessment c)"
  by (simp add: generate_feedback_def Let_def)

lemma feedback_no_target_skills: "generate_feedback ''python django'' ''we are hiring''
     [''matched'' \<mapsto> PList [], ''missing'' \<mapsto> PList [], ''required'' \<mapsto> PInt 0] 50
   = [Assessment Partial, ResumeIncludes 0, NoteShort]"
  by (simp add: generate_feedback_def Let_def get_list_def get_int_def split_example assessment_def)

lemma round_half_even_bounds:
  "\<lfloor>x\<rfloor> \<le> round_half_even x \<and> round_half_even x \<le> \<lfloor>x\<rfloor> + 1"
  by (simp add: round_half_even_def Let_def)

lemma round_half_even_mono:
  assumes "x \<le> y" shows "round_half_even x \<le> round_half_even y"
proof (cases "\<lfloor>x\<rfloor> = \<lfloor>y\<rfloor>")
  case True
  with assms show ?thesis by (auto simp: round_half_even_def Let_def)
next
  case False
  with assms have "\<lfloor>x\<rfloor> + 1 \<le> \<lfloor>y\<rfloor>" using floor_mono[OF assms] by linarith
  with round_half_even_bounds[of x] round_half_even_bounds[of y] show ?thesis by linarith
qed

lemma py_round_mono: "x \<le> y \<Longrightarrow> py_round x n \<le> py_round y n"
  by (simp add: py_round_def divide_right_mono round_half_even_mono mult_right_mono)

lemma round_just_below:
  assumes "of_int m - 1/2 \<le> x" "x < of_int m" "even m"
  shows "round_half_even x = m"
proof -
  have f: "\<lfloor>x\<rfloor> = m - 1" using assms by linarith
  show ?thesis using assms f by (auto simp: round_half_even_def Let_def)
qed

lemma py_round_just_below:
  assumes "of_int b - 0.005 \<le> c" "c < of_int b" 
  shows "py_round c 2 = of_int b"
proof -
  have "round_half_even (c * 100) = b * 100"
    using assms by (intro round_just_below) auto
  then show ?thesis by (simp add: py_round_def)
qed

lemma ex_jd_nonempty: "flatten_skills ex_jd \<noteq> {}"
  by (simp add: flatten_ex_jd)

lemma ex_weights_in_force:
  "weights_in_force (Some ex_weights) ''similarity'' = Some 0"
  "weights_in_force (Some ex_weights) ''skills'' = Some 0.79999"
  by (simp_all add: weights_in_force_def ex_weights_def)

lemma ex_full_match: "fst (calculate_skill_match_score ex_jd ex_jd) = 1"
  by (simp add: calculate_skill_match_score_def flatten_ex_jd Let_def)

subsection \<open>Skill overlap\<close>

text \<open>
  Claim C3. When the flat skill set of the target is not empty,
  \<open>calculate_skill_match_score\<close> returns under \<^verbatim>\<open>matched\<close> the skills common to candidate
  and target and under \<^verbatim>\<open>missing\<close> the skills of the target that the candidate lacks,
  each as a strictly increasing (so lexicographically sorted, duplicate-free) list; the
  score is the number of matched skills divided by the number of target skills,
  \<^verbatim>\<open>required\<close> is the size of the target set and \<^verbatim>\<open>found\<close> the size of the candidate
  set. Hence matched and missing together are the target set, and they are disjoint.
\<close>

theorem skill_match_nonempty_target:
  assumes "flatten_skills jd_skills \<noteq> {}"
  shows "\<exists>score matched missing.
           calculate_skill_match_score resume_skills jd_skills =
             (score, [''matched'' \<mapsto> PList matched, ''missing'' \<mapsto> PList missing,
                      ''required'' \<mapsto> PInt (int (card (flatten_skills jd_skills))),
                      ''found'' \<mapsto> PInt (int (card (flatten_skills resume_skills)))])
         \<and> set matched = flatten_skills resume_skills \<inter> flatten_skills jd_skills
         \<and> set missing = flatten_skills jd_skills - flatten_skills resume_skills
         \<and> sorted_wrt (<) matched \<and> sorted_wrt (<) missing
         \<and> score = real (length matched) / real (card (flatten_skills jd_skills))
         \<and> length matched = card (flatten_skills resume_skills \<inter> flatten_skills jd_skills)
         \<and> set matched \<union> set missing = flatten_skills jd_skills
         \<and> set matched \<inter> set missing = {}"
proof -
  let ?R = "flatten_skills resume_skills" and ?J = "flatten_skills jd_skills"
  let ?m = "sorted_list_of_set (?R \<inter> ?J)" and ?x = "sorted_list_of_set (?J - ?R)"
  have fin: "finite (?R \<inter> ?J)" "finite (?J - ?R)"
    by (simp_all add: finite_flatten_skills)
  have sets: "set ?m = ?R \<inter> ?J" "set ?x = ?J - ?R"
    using fin by simp_all
  have srt: "sorted_wrt (<) ?m" "sorted_wrt (<) ?x"
    by simp_all
  have len: "length ?m = card (?R \<inter> ?J)"
    by simp
  have eq: "calculate_skill_match_score resume_skills jd_skills =
      (real (length ?m) / real (card ?J),
       [''matched'' \<mapsto> PList ?m, ''missing'' \<mapsto> PList ?x,
        ''required'' \<mapsto> PInt (int (card ?J)), ''found'' \<mapsto> PInt (int (card ?R))])"
    using assms by (simp add: calculate_skill_match_score_def Let_def)
  have un: "set ?m \<union> set ?x = ?J" and dj: "set ?m \<inter> set ?x = {}"
    unfolding sets by blast+
  from eq sets srt len un dj show ?thesis by blast
qed

theorem skill_match_nonempty_target_witness:
  "flatten_skills ex_jd \<noteq> {} \<and>
   (\<exists>score matched missing.
      calculate_skill_match_score ex_resume ex_jd =
        (score, [''matched'' \<mapsto> PList matched, ''missing'' \<mapsto> PList missing,
                 ''required'' \<mapsto> PInt 2, ''found'' \<mapsto> PInt 2])
      \<and> set matched = {''python''} \<and> set missing = {''java''}
      \<and> score = real (length matched) / 2)"
proof -
  have i: "flatten_skills ex_resume \<inter> flatten_skills ex_jd = {''python''}"
    by (auto simp: flatten_ex_resume flatten_ex_jd)
  have d: "flatten_skills ex_jd - flatten_skills ex_resume = {''java''}"
    by (auto simp: flatten_ex_resume flatten_ex_jd)
  have c: "card (flatten_skills ex_jd) = 2" "card (flatten_skills ex_resume) = 2"
    by (simp_all add: flatten_ex_resume flatten_ex_jd)
  from skill_match_nonempty_target [OF ex_jd_nonempty, of ex_resume]
  obtain score matched missing where
    1: "calculate_skill_match_score ex_resume ex_jd =
             (score, [''matched'' \<mapsto> PList matched, ''missing'' \<mapsto> PList missing,
                      ''required'' \<mapsto> PInt (int (card (flatten_skills ex_jd))),
                      ''found'' \<mapsto> PInt (int (card (flatten_skills ex_resume)))])"
    and 2: "set matched = flatten_skills ex_resume \<inter> flatten_skills ex_jd"
    and 3: "set missing = flatten_skills ex_jd - flatten_skills ex_resume"
    and 4: "score = real (length matched) / real (card (flatten_skills ex_jd))"
    by (elim exE conjE) (rule that)
  have "calculate_skill_match_score ex_resume ex_jd =
        (score, [''matched'' \<mapsto> PList matched, ''missing'' \<mapsto> PList missing,
                 ''required'' \<mapsto> PInt 2, ''found'' \<mapsto> PInt 2])
      \<and> set matched = {''python''} \<and> set missing = {''java''}
      \<and> score = real (length matched) / 2"
    using 1 2 3 4 unfolding i d c by simp
  then have "\<exists>score matched missing. calculate_skill_match_score ex_resume ex_jd =
        (score, [''matched'' \<mapsto> PList matched, ''missing'' \<mapsto> PList missing,
                 ''required'' \<mapsto> PInt 2, ''found'' \<mapsto> PInt 2])
      \<and> set matched = {''python''} \<and> set missing = {''java''}
      \<and> score = real (length matched) / 2"
    by (intro exI)
  with ex_jd_nonempty show ?thesis by (rule conjI)
qed

text \<open>
  Claim C4. When the flat skill set of the target is empty, the score is 1, \<^verbatim>\<open>matched\<close>
  and \<^verbatim>\<open>missing\<close> are empty lists and \<^verbatim>\<open>required\<close> is 0, whatever the candidate holds.
\<close>

theorem skill_match_empty_target:
  assumes "flatten_skills jd_skills = {}"
  shows "calculate_skill_match_score resume_skills jd_skills =
           (1, [''matched'' \<mapsto> PList [], ''missing'' \<mapsto> PList [], ''required'' \<mapsto> PInt 0])"
  using assms by (simp add: calculate_skill_match_score_def)

theorem skill_match_empty_target_witness:
  "flatten_skills ex_no_skills = {} \<and>
   calculate_skill_match_score ex_resume ex_no_skills =
     (1, [''matched'' \<mapsto> PList [], ''missing'' \<mapsto> PList [], ''required'' \<mapsto> PInt 0])"
  using skill_match_empty_target [OF flatten_ex_no_skills, of ex_resume] flatten_ex_no_skills
  by simp

text \<open>
  Claim C2. The claim asks for the four keys \<^verbatim>\<open>matched\<close>, \<^verbatim>\<open>missing\<close>, \<^verbatim>\<open>required\<close> and
  \<^verbatim>\<open>found\<close> in the details of every scoring. For a posting without skills the early
  return builds the dictionary without \<^verbatim>\<open>found\<close>: the candidate below has two skills,
  the details of the result have no key \<^verbatim>\<open>found\<close>, and the feedback line that is written
  only on this path reports 0 skills.
\<close>

theorem skill_details_without_found: "flatten_skills ex_no_skills = {}
   \<and> card (flatten_skills ex_resume) = 2
   \<and> snd (calculate_skill_match_score ex_resume ex_no_skills) ''found'' = None
   \<and> (\<exists>r. score_resume empty_vocabulary ''python django'' ''we are hiring'' ex_resume ex_no_skills None = Inr r
        \<and> skill_details r ''found'' = None
        \<and> feedback r = [Assessment Partial, ResumeIncludes 0, NoteShort])"
proof -
  have d: "calculate_skill_match_score ex_resume ex_no_skills =
     (1, [''matched'' \<mapsto> PList [], ''missing'' \<mapsto> PList [], ''required'' \<mapsto> PInt 0])"
    by (simp add: calculate_skill_match_score_def flatten_ex_no_skills)
  have c: "generate_composite_score 0 1 None = Inr 50"
    by (simp add: composite_value[OF default_weights_in_force])
  have r: "score_resume empty_vocabulary ''python django'' ''we are hiring'' ex_resume ex_no_skills None =
    Inr \<lparr>final_score = py_round 50 2,
               similarity_score = py_round (0 * 100) 2,
               skill_match_score = py_round (1 * 100) 2,
               skill_details = [''matched'' \<mapsto> PList [], ''missing'' \<mapsto> PList [], ''required'' \<mapsto> PInt 0],
               feedback = [Assessment Partial, ResumeIncludes 0, NoteShort],
               rating = score_to_rating 50\<rparr>"
    by (simp add: score_resume_cases d c empty_vocabulary_def feedback_no_target_skills)
  have k: "card (flatten_skills ex_resume) = 2"
    by (simp add: flatten_ex_resume)
  show ?thesis
    by (simp add: flatten_ex_no_skills k d r)
qed

subsection \<open>Composite score and rating\<close>

text \<open>
  Claim C5. The rating has closed lower bounds, tried from the top: five stars exactly
  from 80 on, four from 60 up to 80, three from 40 up to 60, two from 20 up to 40, one
  below 20; a score of exactly 80 has five stars and 79.999 has four.
\<close>

theorem score_to_rating_tiers:
  "(score_to_rating s = Stars 5 \<longleftrightarrow> 80 \<le> s) \<and>
   (score_to_rating s = Stars 4 \<longleftrightarrow> 60 \<le> s \<and> s < 80) \<and>
   (score_to_rating s = Stars 3 \<longleftrightarrow> 40 \<le> s \<and> s < 60) \<and>
   (score_to_rating s = Stars 2 \<longleftrightarrow> 20 \<le> s \<and> s < 40) \<and>
   (score_to_rating s = Stars 1 \<longleftrightarrow> s < 20) \<and>
   score_to_rating 80 = Stars 5 \<and> score_to_rating 79.999 = Stars 4"
  by (simp add: score_to_rating_def)

text \<open>
  Claim C6. With weights that are not negative (those given, or the default ones when
  none are given), the composite score does not decrease when the similarity grows and
  the skill match is kept, nor when the skill match grows and the similarity is kept;
  the same holds for the composite rounded to two decimals, which is \<^verbatim>\<open>final_score\<close>.
\<close>

theorem composite_monotone:
  assumes "weights_in_force weights ''similarity'' = Some a"
      and "weights_in_force weights ''skills'' = Some b"
      and "0 \<le> a" and "0 \<le> b"
      and "s \<le> s'" and "k \<le> k'"
  shows "\<exists>c c1 c2. generate_composite_score s k weights = Inr c
           \<and> generate_composite_score s' k weights = Inr c1
           \<and> generate_composite_score s k' weights = Inr c2
           \<and> c \<le> c1 \<and> c \<le> c2
           \<and> py_round c 2 \<le> py_round c1 2 \<and> py_round c 2 \<le> py_round c2 2"
proof -
  have 1: "(s * a + k * b) * 100 \<le> (s' * a + k * b) * 100"
    using assms by (simp add: mult_right_mono)
  have 2: "(s * a + k * b) * 100 \<le> (s * a + k' * b) * 100"
    using assms by (simp add: mult_right_mono)
  show ?thesis
    using 1 2 py_round_mono[OF 1] py_round_mono[OF 2]
    by (simp add: composite_value[OF assms(1,2)])
qed

theorem composite_monotone_witness:
  "weights_in_force None ''similarity'' = Some 0.5 \<and> weights_in_force None ''skills'' = Some 0.5
   \<and> (0::real) \<le> 0.5 \<and> (0.2::real) \<le> 0.6 \<and> (0.25::real) \<le> 1
   \<and> (\<exists>c c1 c2. generate_composite_score 0.2 0.25 None = Inr c
           \<and> generate_composite_score 0.6 0.25 None = Inr c1
           \<and> generate_composite_score 0.2 1 None = Inr c2
           \<and> c \<le> c1 \<and> c \<le> c2
           \<and> py_round c 2 \<le> py_round c1 2 \<and> py_round c 2 \<le> py_round c2 2)"
proof -
  have c: "(0::real) \<le> 0.5" "(0.2::real) \<le> 0.6" "(0.25::real) \<le> 1" by simp_all
  from composite_monotone[OF default_weights_in_force c(1) c(1) c(2) c(3)]
    default_weights_in_force c
  show ?thesis by blast
qed

text \<open>
  Claim C7. \<open>calculate_similarity_score\<close> returns a value for every pair of texts and
  every behaviour of the library, and the value is 0 whenever the library raises, as it
  does on an empty vocabulary.
\<close>

theorem similarity_never_raises:
  "(\<exists>v. calculate_similarity_score lib a b = Inr v) \<and>
   (\<forall>e. lib a b = Inl e \<longrightarrow> calculate_similarity_score lib a b = Inr 0)"
  by (simp add: calculate_similarity_score_def split: sum.splits)

theorem similarity_never_raises_witness:
  "empty_vocabulary ''the'' ''and'' = Inl (ValueError ''empty vocabulary'')
   \<and> calculate_similarity_score empty_vocabulary ''the'' ''and'' = Inr 0"
proof -
  have h: "empty_vocabulary ''the'' ''and'' = Inl (ValueError ''empty vocabulary'')"
    by (simp add: empty_vocabulary_def)
  from similarity_never_raises [of empty_vocabulary "''the''" "''and''"] h show ?thesis
    by blast
qed




text \<open>
  Claim C10. In every result of \<open>score_resume\<close> the rating and the headline of the
  feedback are taken from the composite score as computed, and \<^verbatim>\<open>final_score\<close> is that
  score rounded to two decimals. So a composite score less than 0.005 below one of the
  bounds 20, 40, 60, 80 gives a \<^verbatim>\<open>final_score\<close> equal to the bound with the rating of the
  tier below; from 79.995 up to 80 the result has \<^verbatim>\<open>final_score\<close> 80, four stars and the
  headline of the second band.
\<close>

theorem rating_from_unrounded_composite:
  assumes "score_resume lib resume_text jd_text resume_skills jd_skills weights = Inr r"
  shows "\<exists>similarity composite.
           calculate_similarity_score lib resume_text jd_text = Inr similarity
         \<and> generate_composite_score similarity
               (fst (calculate_skill_match_score resume_skills jd_skills)) weights = Inr composite
         \<and> final_score r = py_round composite 2
         \<and> rating r = score_to_rating composite
         \<and> hd (feedback r) = Assessment (assessment composite)
         \<and> (\<forall>b \<in> {20, 40, 60, 80}. real_of_int b - 0.005 \<le> composite \<and> composite < real_of_int b \<longrightarrow>
               final_score r = real_of_int b
             \<and> rating r \<noteq> score_to_rating (final_score r)
             \<and> (b = 80 \<longrightarrow> rating r = Stars 4 \<and> hd (feedback r) = Assessment Good))"
proof -
  let ?sim = "case lib resume_text jd_text of Inl e \<Rightarrow> 0 | Inr v \<Rightarrow> v"
  from assms obtain c where
    c: "generate_composite_score ?sim (fst (calculate_skill_match_score resume_skills jd_skills)) weights = Inr c"
    and r: "r = \<lparr>final_score = py_round c 2,
               similarity_score = py_round (?sim * 100) 2,
               skill_match_score = py_round (fst (calculate_skill_match_score resume_skills jd_skills) * 100) 2,
               skill_details = snd (calculate_skill_match_score resume_skills jd_skills),
               feedback = generate_feedback resume_text jd_text (snd (calculate_skill_match_score resume_skills jd_skills)) c,
               rating = score_to_rating c\<rparr>"
    by (auto simp: score_resume_cases split: sum.splits)
  have bands: "final_score r = real_of_int b \<and> rating r \<noteq> score_to_rating (final_score r)
             \<and> (b = 80 \<longrightarrow> rating r = Stars 4 \<and> hd (feedback r) = Assessment Good)"
    if b: "b \<in> {20, 40, 60, 80}" and lo: "real_of_int b - 0.005 \<le> c" and hi: "c < real_of_int b" for b :: int
  proof -
    have f: "final_score r = real_of_int b"
      using py_round_just_below[OF lo hi] by (simp add: r)
    have "rating r \<noteq> score_to_rating (real_of_int b)"
      using b lo hi by (auto simp: r score_to_rating_def)
    moreover have "b = 80 \<longrightarrow> rating r = Stars 4 \<and> hd (feedback r) = Assessment Good"
      using lo hi by (auto simp: r score_to_rating_def hd_generate_feedback assessment_def)
    ultimately show ?thesis using f by simp
  qed
  show ?thesis
  proof (rule exI[of _ ?sim], rule exI[of _ c], intro conjI ballI impI)
    show "calculate_similarity_score lib resume_text jd_text = Inr ?sim"
      by (rule similarity_value)
    show "generate_composite_score ?sim
            (fst (calculate_skill_match_score resume_skills jd_skills)) weights = Inr c"
      by (rule c)
    show "final_score r = py_round c 2" by (simp add: r)
    show "rating r = score_to_rating c" by (simp add: r)
    show "hd (feedback r) = Assessment (assessment c)" by (simp add: r hd_generate_feedback)
  next
    fix b :: int
    assume "b \<in> {20, 40, 60, 80}" "real_of_int b - 0.005 \<le> c \<and> c < real_of_int b"
    then have *: "final_score r = real_of_int b \<and> rating r \<noteq> score_to_rating (final_score r)
             \<and> (b = 80 \<longrightarrow> rating r = Stars 4 \<and> hd (feedback r) = Assessment Good)"
      using bands by blast
    from * show "final_score r = real_of_int b" by blast
    from * show "rating r \<noteq> score_to_rating (final_score r)" by blast
    assume "b = 80"
    with * show "rating r = Stars 4" by blast
    from * \<open>b = 80\<close> show "hd (feedback r) = Assessment Good" by blast
  qed
qed

theorem rating_from_unrounded_composite_witness:
  "\<exists>r. score_resume empty_vocabulary ''python java'' ''python java'' ex_jd ex_jd (Some ex_weights) = Inr r
      \<and> generate_composite_score 0 1 (Some ex_weights) = Inr 79.999
      \<and> final_score r = 80 \<and> rating r = Stars 4 \<and> hd (feedback r) = Assessment Good
      \<and> score_to_rating (final_score r) = Stars 5"
proof -
  have c: "generate_composite_score 0 1 (Some ex_weights) = Inr 79.999"
    by (simp add: composite_value[OF ex_weights_in_force])
  have s: "calculate_similarity_score empty_vocabulary ''python java'' ''python java'' = Inr 0"
    by (simp add: calculate_similarity_score_def empty_vocabulary_def)
  obtain r where r: "score_resume empty_vocabulary ''python java'' ''python java'' ex_jd ex_jd (Some ex_weights) = Inr r"
    by (simp add: score_resume_cases empty_vocabulary_def ex_full_match c)
  from rating_from_unrounded_composite [OF r] obtain similarity composite where
    1: "calculate_similarity_score empty_vocabulary ''python java'' ''python java'' = Inr similarity"
    and 2: "generate_composite_score similarity (fst (calculate_skill_match_score ex_jd ex_jd)) (Some ex_weights) = Inr composite"
    and 3: "\<forall>b \<in> {20, 40, 60, 80}. real_of_int b - 0.005 \<le> composite \<and> composite < real_of_int b \<longrightarrow>
               final_score r = real_of_int b
             \<and> rating r \<noteq> score_to_rating (final_score r)
             \<and> (b = 80 \<longrightarrow> rating r = Stars 4 \<and> hd (feedback r) = Assessment Good)"
    by blast
  from 1 s have "similarity = 0" by simp
  with 2 c have comp: "composite = 79.999" by (simp add: ex_full_match)
  have "real_of_int 80 - 0.005 \<le> composite \<and> composite < real_of_int 80"
    by (simp add: comp)
  with 3 have "final_score r = 80 \<and> rating r = Stars 4 \<and> hd (feedback r) = Assessment Good"
    by fastforce
  then show ?thesis using r c by (auto simp: score_to_rating_def)
qed

section \<open>Properties of the text processing\<close>

subsection \<open>Skills that begin and end with a word character\<close>

text \<open>
  For such a skill the two \<^verbatim>\<open>\b\<close> of the pattern say what the specification says: no
  word character before the occurrence and none after it.
\<close>

lemma take_drop_eq_nth:
  assumes "take (length skill) (drop i text) = skill" and "skill \<noteq> []"
  shows "i + length skill \<le> length text" "text ! i = hd skill" "text ! (i + length skill - 1) = last skill"
proof -
  from assms have l: "length (take (length skill) (drop i text)) = length skill" by simp
  moreover from assms(2) obtain k where "length skill = Suc k" by (cases skill) auto
  ultimately show le: "i + length skill \<le> length text" by (simp add: min_def split: if_splits)
  have n: "\<And>k. k < length skill \<Longrightarrow> skill ! k = text ! (i + k)"
  proof -
    fix k assume k: "k < length skill"
    have "skill ! k = take (length skill) (drop i text) ! k" by (simp add: assms(1))
    also have "\<dots> = text ! (i + k)" using k le by simp
    finally show "skill ! k = text ! (i + k)" .
  qed
  from assms(2) have "0 < length skill" by simp
  from n[OF this] show "text ! i = hd skill" using assms(2) by (simp add: hd_conv_nth)
  from assms(2) have "length skill - 1 < length skill" by simp
  moreover from assms(2) obtain k where "length skill = Suc k" by (cases skill) auto
  then have "i + length skill - 1 = i + (length skill - 1)" by simp
  ultimately show "text ! (i + length skill - 1) = last skill"
    using n[of "length skill - 1"] assms(2) by (simp add: last_conv_nth)
qed

lemma match_at_word_skill:
  assumes "skill \<noteq> []" "is_word_char (hd skill)" "is_word_char (last skill)"
  shows "match_at skill text i = whole_word_at skill text i"
proof (cases "take (length skill) (drop i text) = skill")
  case False
  then show ?thesis by (simp add: match_at_def whole_word_at_def)
next
  case True
  note f = take_drop_eq_nth[OF True assms(1)]
  from assms(1) have pos: "0 < length skill" by simp
  from assms(1) obtain k where "length skill = Suc k" by (cases skill) auto
  with f(1) have lt: "i < length text" by simp
  have b1: "is_boundary text i = (\<not> (0 < i \<and> is_word_char (text ! (i - 1))))"
    using f assms pos lt by (auto simp: is_boundary_def)
  have b2: "is_boundary text (i + length skill)
        = (\<not> (i + length skill < length text \<and> is_word_char (text ! (i + length skill))))"
    using f assms pos by (auto simp: is_boundary_def)
  show ?thesis by (simp add: match_at_def whole_word_at_def True b1 b2)
qed

text \<open>
  Claim C1. The claim asks that \<open>extract_skills\<close> count the whole-word occurrences of
  every skill of the taxonomy, \<^verbatim>\<open>c++\<close> and \<^verbatim>\<open>c#\<close> included. The default taxonomy holds
  \<^verbatim>\<open>c++\<close>; in the text \<^verbatim>\<open>c++ and c#\<close> it stands once as a whole word, at the start and
  followed by a space, but the pattern finds no match, since \<^verbatim>\<open>\b\<close> after a \<^verbatim>\<open>+\<close> asks
  for a word character next. The same holds for \<^verbatim>\<open>c#\<close>, and the extraction is empty.
  Followed by a digit, as in \<^verbatim>\<open>c++11\<close>, the skill is counted although it is not a whole
  word there.
\<close>

theorem extract_skills_misses_symbol_skills:
  "(''c++'', ''programming_languages'') \<in> set (all_skills ex_extractor)
   \<and> whole_word_count ''c++'' ''c++ and c#'' = 1
   \<and> findall_count ''c++'' ''c++ and c#'' 0 = 0
   \<and> whole_word_count ''c#'' ''c++ and c#'' = 1
   \<and> findall_count ''c#'' ''c++ and c#'' 0 = 0
   \<and> extract_skills ex_extractor ''c++ and c#'' 1
       = \<lparr>by_category = Some [], frequencies = [], total_unique = 0\<rparr>
   \<and> whole_word_count ''c++'' ''c++11'' = 0
   \<and> findall_count ''c++'' ''c++11'' 0 = 1"
proof -
  have 1: "(''c++'', ''programming_languages'') \<in> set (all_skills ex_extractor)"
    by code_simp
  have 2: "whole_word_count ''c++'' ''c++ and c#'' = 1"
    by code_simp
  have 3: "findall_count ''c++'' ''c++ and c#'' 0 = 0"
    by code_simp
  have 4: "whole_word_count ''c#'' ''c++ and c#'' = 1"
    by code_simp
  have 5: "findall_count ''c#'' ''c++ and c#'' 0 = 0"
    by code_simp
  have 6: "extract_skills ex_extractor ''c++ and c#'' 1
       = \<lparr>by_category = Some [], frequencies = [], total_unique = 0\<rparr>"
    by code_simp
  have 7: "whole_word_count ''c++'' ''c++11'' = 0"
    by code_simp
  have 8: "findall_count ''c++'' ''c++11'' 0 = 1"
    by code_simp
  from 1 2 3 4 5 6 7 8 show ?thesis by (intro conjI)
qed

subsection \<open>Characters\<close>

lemma of_char_less_256: "(of_char c :: nat) < 256"
proof -
  have "(of_char c :: nat) = of_char c mod 256" by (simp only: of_char_mod_256)
  also have "\<dots> < 256" by simp
  finally show ?thesis .
qed

lemma lower_char_idem: "lower_char (lower_char c) = lower_char c"
  using of_char_less_256[of c]
  by (auto simp: lower_char_def Let_def)

lemma lower_idem: "lower (lower s) = lower s"
  by (simp add: lower_def lower_char_idem)

lemma lower_fix_iff: "lower s = s \<longleftrightarrow> (\<forall>c \<in> set s. lower_char c = c)"
  by (induction s) (auto simp: lower_def)

lemma lower_char_space: "lower_char (CHR '' '') = CHR '' ''"
  by (simp add: lower_char_def)

lemma isspace_space: "isspace (CHR '' '')"
  by (simp add: isspace_def)

lemma nonspace_letters:
  "\<not> isspace (CHR ''h'')" "\<not> isspace (CHR ''t'')" "\<not> isspace (CHR ''p'')" "\<not> isspace (CHR ''w'')"
  by (simp_all add: isspace_def)

lemma url_at_iff:
  "url_at s \<longleftrightarrow> (\<exists>c r. \<not> isspace c \<and> (s = ''http'' @ c # r \<or> s = ''www'' @ c # r))"
proof
  assume "url_at s"
  then consider (h) "take 4 s = ''http''" "\<exists>c r. drop 4 s = c # r \<and> \<not> isspace c"
    | (w) "take 3 s = ''www''" "\<exists>c r. drop 3 s = c # r \<and> \<not> isspace c"
    by (auto simp: url_at_def split: list.splits)
  then show "\<exists>c r. \<not> isspace c \<and> (s = ''http'' @ c # r \<or> s = ''www'' @ c # r)"
  proof cases
    case h
    then obtain c r where "drop 4 s = c # r" "\<not> isspace c" by blast
    with h(1) append_take_drop_id[of 4 s] have "s = ''http'' @ c # r" by simp
    with \<open>\<not> isspace c\<close> show ?thesis by blast
  next
    case w
    then obtain c r where "drop 3 s = c # r" "\<not> isspace c" by blast
    with w(1) append_take_drop_id[of 3 s] have "s = ''www'' @ c # r" by simp
    with \<open>\<not> isspace c\<close> show ?thesis by blast
  qed
next
  assume "\<exists>c r. \<not> isspace c \<and> (s = ''http'' @ c # r \<or> s = ''www'' @ c # r)"
  then show "url_at s" by (auto simp: url_at_def)
qed

lemma url_at_hd: "url_at (c # cs) \<Longrightarrow> \<not> isspace c"
  by (auto simp: url_at_iff nonspace_letters)

lemma email_at_hd: "email_at (c # cs) \<Longrightarrow> \<not> isspace c"
  by (auto simp: email_at_def)

lemma run_decomp: "s = takeWhile P s @ dropWhile P s"
  by simp

lemma url_at_mono:
  assumes "url_at s" and "prefix (takeWhile (\<lambda>x. \<not> isspace x) s) (takeWhile (\<lambda>x. \<not> isspace x) t)"
  shows "url_at t"
proof -
  let ?ns = "\<lambda>x. \<not> isspace x"
  from assms(1) obtain c r where c: "\<not> isspace c" and s: "s = ''http'' @ c # r \<or> s = ''www'' @ c # r"
    by (auto simp: url_at_iff)
  from s show ?thesis
  proof
    assume "s = ''http'' @ c # r"
    then have "takeWhile ?ns s = ''http'' @ c # takeWhile ?ns r"
      using c by (simp add: nonspace_letters)
    with assms(2) obtain z where "takeWhile ?ns t = ''http'' @ c # (takeWhile ?ns r @ z)"
      by (auto simp: prefix_def)
    with run_decomp[of t ?ns] have "t = ''http'' @ c # (takeWhile ?ns r @ z @ dropWhile ?ns t)"
      by simp
    with c show ?thesis unfolding url_at_iff by blast
  next
    assume "s = ''www'' @ c # r"
    then have "takeWhile ?ns s = ''www'' @ c # takeWhile ?ns r"
      using c by (simp add: nonspace_letters)
    with assms(2) obtain z where "takeWhile ?ns t = ''www'' @ c # (takeWhile ?ns r @ z)"
      by (auto simp: prefix_def)
    with run_decomp[of t ?ns] have "t = ''www'' @ c # (takeWhile ?ns r @ z @ dropWhile ?ns t)"
      by simp
    with c show ?thesis unfolding url_at_iff by blast
  qed
qed

lemma email_at_mono:
  assumes "email_at s" and "prefix (takeWhile (\<lambda>x. \<not> isspace x) s) (takeWhile (\<lambda>x. \<not> isspace x) t)"
  shows "email_at t"
proof -
  let ?a = "takeWhile (\<lambda>x. \<not> isspace x) s"
  from assms(2) obtain z where t: "takeWhile (\<lambda>x. \<not> isspace x) t = ?a @ z"
    by (auto simp: prefix_def)
  from assms(1) have m: "CHR ''@'' \<in> set (butlast (tl ?a))" by (simp add: email_at_def)
  then have ne: "?a \<noteq> []" "tl ?a \<noteq> []" by auto
  have "butlast (tl (?a @ z)) = (if z = [] then butlast (tl ?a) else tl ?a @ butlast z)"
    using ne by (simp add: butlast_append)
  moreover have "CHR ''@'' \<in> set (tl ?a)" using m by (rule in_set_butlastD)
  ultimately have "CHR ''@'' \<in> set (butlast (tl (?a @ z)))" using m by auto
  then show ?thesis by (simp add: email_at_def t)
qed

lemma prefix_takeWhile_append: "prefix (takeWhile P xs) (takeWhile P (xs @ ys))"
  by (induction xs) auto

subsection \<open>Texts that a stage leaves unchanged\<close>

lemma url_free_fix: "url_free s \<Longrightarrow> remove_urls s = s"
  by (induction s) auto

lemma email_free_fix: "email_free s \<Longrightarrow> remove_emails s = s"
  by (induction s) auto

lemma dropWhile_isspace_id: "(case cs of [] \<Rightarrow> True | d # _ \<Rightarrow> \<not> isspace d) \<Longrightarrow> dropWhile isspace cs = cs"
  by (cases cs) auto

lemma collapsed_fix: "collapsed s \<Longrightarrow> collapse_whitespace s = s"
  by (induction s) (auto simp: dropWhile_isspace_id)

lemma dropWhile_hd_id: "xs \<noteq> [] \<Longrightarrow> \<not> P (hd xs) \<Longrightarrow> dropWhile P xs = xs"
  by (cases xs) auto

lemma stripped_fix:
  assumes "stripped s" shows "strip s = s"
proof (cases "s = []")
  case True
  then show ?thesis by (simp add: strip_def)
next
  case False
  with assms have h: "\<not> isspace (hd s)" and l: "\<not> isspace (last s)"
    by (auto simp: stripped_def)
  from False h have 1: "dropWhile isspace s = s" by (rule dropWhile_hd_id)
  from False have "rev s \<noteq> []" by simp
  moreover from l have "\<not> isspace (hd (rev s))" by (simp add: hd_rev)
  ultimately have 2: "dropWhile isspace (rev s) = rev s" by (rule dropWhile_hd_id)
  show ?thesis by (simp add: strip_def 1 2)
qed

subsection \<open>Normal forms of the parts of a text\<close>

lemma url_free_append_left: "url_free (p @ s) \<Longrightarrow> url_free s"
  by (induction p) auto

lemma email_free_append_left: "email_free (p @ s) \<Longrightarrow> email_free s"
  by (induction p) auto

lemma collapsed_append_left: "collapsed (p @ s) \<Longrightarrow> collapsed s"
  by (induction p) auto

lemma url_free_dropWhile: "url_free s \<Longrightarrow> url_free (dropWhile P s)"
  using url_free_append_left[of "takeWhile P s" "dropWhile P s"] by simp

lemma email_free_dropWhile: "email_free s \<Longrightarrow> email_free (dropWhile P s)"
  using email_free_append_left[of "takeWhile P s" "dropWhile P s"] by simp

lemma url_free_append_right: "url_free (s @ z) \<Longrightarrow> url_free s"
proof (induction s)
  case Nil
  then show ?case by simp
next
  case (Cons c s)
  have "\<not> url_at (c # s)"
  proof
    assume "url_at (c # s)"
    then have "url_at ((c # s) @ z)"
      by (rule url_at_mono) (rule prefix_takeWhile_append)
    with Cons.prems show False by simp
  qed
  with Cons show ?case by simp
qed

lemma email_free_append_right: "email_free (s @ z) \<Longrightarrow> email_free s"
proof (induction s)
  case Nil
  then show ?case by simp
next
  case (Cons c s)
  have "\<not> email_at (c # s)"
  proof
    assume "email_at (c # s)"
    then have "email_at ((c # s) @ z)"
      by (rule email_at_mono) (rule prefix_takeWhile_append)
    with Cons.prems show False by simp
  qed
  with Cons show ?case by simp
qed

lemma collapsed_append_right: "collapsed (s @ z) \<Longrightarrow> collapsed s"
proof (induction s)
  case Nil
  then show ?case by simp
next
  case (Cons c s)
  then show ?case by (cases s) auto
qed

subsection \<open>Trimming\<close>

lemma strip_decomp: "\<exists>p z. s = p @ strip s @ z"
proof -
  let ?a = "dropWhile isspace s"
  have "rev (takeWhile isspace (rev ?a) @ dropWhile isspace (rev ?a)) = rev (rev ?a)"
    by (simp only: takeWhile_dropWhile_id)
  then have "rev (dropWhile isspace (rev ?a)) @ rev (takeWhile isspace (rev ?a)) = ?a"
    by (simp only: rev_append rev_rev_ident)
  then have a: "?a = strip s @ rev (takeWhile isspace (rev ?a))"
    by (simp only: strip_def)
  have "s = takeWhile isspace s @ ?a" by simp
  with a have "s = takeWhile isspace s @ strip s @ rev (takeWhile isspace (rev ?a))"
    by (simp only:)
  then show ?thesis by blast
qed

lemma url_free_strip: "url_free s \<Longrightarrow> url_free (strip s)"
  using strip_decomp[of s] url_free_append_left url_free_append_right by metis

lemma email_free_strip: "email_free s \<Longrightarrow> email_free (strip s)"
  using strip_decomp[of s] email_free_append_left email_free_append_right by metis

lemma collapsed_strip: "collapsed s \<Longrightarrow> collapsed (strip s)"
  using strip_decomp[of s] collapsed_append_left collapsed_append_right by metis

lemma set_strip: "set (strip s) \<subseteq> set s"
proof -
  from strip_decomp[of s] obtain p z where "s = p @ strip s @ z" by blast
  then have "set s = set p \<union> set (strip s) \<union> set z" by (metis set_append Un_assoc)
  then show ?thesis by blast
qed

lemma stripped_strip: "stripped (strip s)"
proof (cases "strip s = []")
  case True
  then show ?thesis by (simp add: stripped_def)
next
  case False
  let ?a = "dropWhile isspace s"
  let ?b = "dropWhile isspace (rev ?a)"
  have s: "strip s = rev ?b" by (simp add: strip_def)
  with False have b: "?b \<noteq> []" by simp
  then have hb: "\<not> isspace (hd ?b)" by (rule hd_dropWhile)
  from b have ra: "rev ?a \<noteq> []" by (metis dropWhile.simps(1))
  then have a: "?a \<noteq> []" by simp
  then have ha: "\<not> isspace (hd ?a)" by (rule hd_dropWhile)
  have "rev ?a = takeWhile isspace (rev ?a) @ ?b" by simp
  then have "last (rev ?a) = last ?b" using b by (metis last_appendR)
  then have "last ?b = hd ?a" using a by (simp add: last_rev)
  then have "hd (rev ?b) = hd ?a" using b by (simp add: hd_rev)
  moreover have "last (rev ?b) = hd ?b" using b by (simp add: last_rev)
  ultimately show ?thesis using False ha hb by (simp add: stripped_def s)
qed

subsection \<open>Runs of non-whitespace characters\<close>

lemma dropWhile_nonspace_start:
  "dropWhile (\<lambda>x. \<not> isspace x) cs = [] \<or> isspace (hd (dropWhile (\<lambda>x. \<not> isspace x) cs))"
  using hd_dropWhile[of "\<lambda>x. \<not> isspace x" cs] by blast

lemma run_remove_urls_space:
  "s = [] \<or> isspace (hd s) \<Longrightarrow> takeWhile (\<lambda>x. \<not> isspace x) (remove_urls s) = []"
  by (cases s) (auto dest: url_at_hd)

lemma run_remove_emails_space:
  "s = [] \<or> isspace (hd s) \<Longrightarrow> takeWhile (\<lambda>x. \<not> isspace x) (remove_emails s) = []"
  by (cases s) (auto dest: email_at_hd)

lemma run_remove_urls:
  "prefix (takeWhile (\<lambda>x. \<not> isspace x) (remove_urls s)) (takeWhile (\<lambda>x. \<not> isspace x) s)"
proof (induction s rule: remove_urls.induct)
  case 1
  then show ?case by simp
next
  case (2 c cs)
  show ?case
  proof (cases "url_at (c # cs)")
    case True
    then show ?thesis
      using run_remove_urls_space[OF dropWhile_nonspace_start[of cs]] by simp
  next
    case False
    with 2 show ?thesis by simp
  qed
qed

lemma run_remove_emails:
  "prefix (takeWhile (\<lambda>x. \<not> isspace x) (remove_emails s)) (takeWhile (\<lambda>x. \<not> isspace x) s)"
proof (induction s rule: remove_emails.induct)
  case 1
  then show ?case by simp
next
  case (2 c cs)
  show ?case
  proof (cases "email_at (c # cs)")
    case True
    then show ?thesis
      using run_remove_emails_space[OF dropWhile_nonspace_start[of cs]] by simp
  next
    case False
    with 2 show ?thesis by simp
  qed
qed

lemma run_collapse_whitespace:
  "takeWhile (\<lambda>x. \<not> isspace x) (collapse_whitespace s) = takeWhile (\<lambda>x. \<not> isspace x) s"
  by (induction s rule: collapse_whitespace.induct) (auto simp: isspace_space)

lemma run_cons:
  "prefix (takeWhile P a) (takeWhile P b) \<Longrightarrow> prefix (takeWhile P (c # a)) (takeWhile P (c # b))"
  by simp

subsection \<open>What each stage establishes and keeps\<close>

lemma url_free_remove_urls: "url_free (remove_urls s)"
proof (induction s rule: remove_urls.induct)
  case 1
  then show ?case by simp
next
  case (2 c cs)
  show ?case
  proof (cases "url_at (c # cs)")
    case True
    with 2 show ?thesis by simp
  next
    case False
    have "\<not> url_at (c # remove_urls cs)"
      using False url_at_mono[OF _ run_cons[OF run_remove_urls]] by blast
    with False 2 show ?thesis by simp
  qed
qed

lemma url_free_remove_emails: "url_free s \<Longrightarrow> url_free (remove_emails s)"
proof (induction s rule: remove_emails.induct)
  case 1
  then show ?case by simp
next
  case (2 c cs)
  show ?case
  proof (cases "email_at (c # cs)")
    case True
    with 2 show ?thesis by (simp add: url_free_dropWhile)
  next
    case False
    from 2(3) have "\<not> url_at (c # cs)" by simp
    then have "\<not> url_at (c # remove_emails cs)"
      using url_at_mono[OF _ run_cons[OF run_remove_emails]] by blast
    with False 2 show ?thesis by simp
  qed
qed

lemma email_free_remove_emails: "email_free (remove_emails s)"
proof (induction s rule: remove_emails.induct)
  case 1
  then show ?case by simp
next
  case (2 c cs)
  show ?case
  proof (cases "email_at (c # cs)")
    case True
    with 2 show ?thesis by simp
  next
    case False
    have "\<not> email_at (c # remove_emails cs)"
      using False email_at_mono[OF _ run_cons[OF run_remove_emails]] by blast
    with False 2 show ?thesis by simp
  qed
qed

lemma url_free_collapse: "url_free s \<Longrightarrow> url_free (collapse_whitespace s)"
proof (induction s rule: collapse_whitespace.induct)
  case 1
  then show ?case by simp
next
  case (2 c cs)
  show ?case
  proof (cases "isspace c")
    case True
    have "\<not> url_at (CHR '' '' # collapse_whitespace (dropWhile isspace cs))"
      using url_at_hd isspace_space by blast
    moreover have "url_free (collapse_whitespace (dropWhile isspace cs))"
      using 2 True by (simp add: url_free_dropWhile)
    ultimately show ?thesis using True by simp
  next
    case False
    have p: "prefix (takeWhile (\<lambda>x. \<not> isspace x) (c # collapse_whitespace cs))
                    (takeWhile (\<lambda>x. \<not> isspace x) (c # cs))"
      by (simp add: run_collapse_whitespace)
    from 2(3) have "\<not> url_at (c # cs)" by simp
    then have "\<not> url_at (c # collapse_whitespace cs)"
      using url_at_mono[OF _ p] by blast
    with False 2 show ?thesis by simp
  qed
qed

lemma email_free_collapse: "email_free s \<Longrightarrow> email_free (collapse_whitespace s)"
proof (induction s rule: collapse_whitespace.induct)
  case 1
  then show ?case by simp
next
  case (2 c cs)
  show ?case
  proof (cases "isspace c")
    case True
    have "\<not> email_at (CHR '' '' # collapse_whitespace (dropWhile isspace cs))"
      using email_at_hd isspace_space by blast
    moreover have "email_free (collapse_whitespace (dropWhile isspace cs))"
      using 2 True by (simp add: email_free_dropWhile)
    ultimately show ?thesis using True by simp
  next
    case False
    have p: "prefix (takeWhile (\<lambda>x. \<not> isspace x) (c # collapse_whitespace cs))
                    (takeWhile (\<lambda>x. \<not> isspace x) (c # cs))"
      by (simp add: run_collapse_whitespace)
    from 2(3) have "\<not> email_at (c # cs)" by simp
    then have "\<not> email_at (c # collapse_whitespace cs)"
      using email_at_mono[OF _ p] by blast
    with False 2 show ?thesis by simp
  qed
qed

lemma collapse_start:
  "s = [] \<or> \<not> isspace (hd s) \<Longrightarrow>
     (case collapse_whitespace s of [] \<Rightarrow> True | d # _ \<Rightarrow> \<not> isspace d)"
  by (cases s) auto

lemma dropWhile_isspace_start:
  "dropWhile isspace cs = [] \<or> \<not> isspace (hd (dropWhile isspace cs))"
  using hd_dropWhile[of isspace cs] by blast

lemma collapsed_collapse: "collapsed (collapse_whitespace s)"
proof (induction s rule: collapse_whitespace.induct)
  case 1
  then show ?case by simp
next
  case (2 c cs)
  show ?case
  proof (cases "isspace c")
    case True
    with 2 collapse_start[OF dropWhile_isspace_start[of cs]] show ?thesis by simp
  next
    case False
    with 2 show ?thesis by simp
  qed
qed

subsection \<open>Characters of the result\<close>

lemma set_remove_urls: "set (remove_urls s) \<subseteq> set s"
proof (induction s rule: remove_urls.induct)
  case 1
  then show ?case by simp
next
  case (2 c cs)
  then show ?case using set_dropWhileD[of _ "\<lambda>x. \<not> isspace x" cs] by (cases "url_at (c # cs)") auto
qed

lemma set_remove_emails: "set (remove_emails s) \<subseteq> set s"
proof (induction s rule: remove_emails.induct)
  case 1
  then show ?case by simp
next
  case (2 c cs)
  then show ?case using set_dropWhileD[of _ "\<lambda>x. \<not> isspace x" cs] by (cases "email_at (c # cs)") auto
qed

lemma set_collapse: "set (collapse_whitespace s) \<subseteq> insert (CHR '' '') (set s)"
proof (induction s rule: collapse_whitespace.induct)
  case 1
  then show ?case by simp
next
  case (2 c cs)
  then show ?case using set_dropWhileD[of _ isspace cs] by (cases "isspace c") auto
qed

lemma preprocess_text_lowered: "lower (preprocess_text x) = preprocess_text x"
proof -
  have "\<forall>c \<in> set (lower x). lower_char c = c"
    using lower_idem[of x] by (simp add: lower_fix_iff)
  then have "\<forall>c \<in> set (preprocess_text x). lower_char c = c"
    using set_strip set_collapse set_remove_emails set_remove_urls lower_char_space
    unfolding preprocess_text_def Let_def
    by (metis insert_iff subsetD)
  then show ?thesis by (simp add: lower_fix_iff)
qed

lemma preprocess_text_normal:
  "url_free (preprocess_text x)" "email_free (preprocess_text x)"
  "collapsed (preprocess_text x)" "stripped (preprocess_text x)"
  unfolding preprocess_text_def Let_def
  by (simp_all add: url_free_strip url_free_collapse url_free_remove_emails url_free_remove_urls
        email_free_strip email_free_collapse email_free_remove_emails
        collapsed_strip collapsed_collapse stripped_strip)


text \<open>
  Claim C9. \<open>preprocess_text\<close> is a total function, with no failing branch, and applying
  it to its own result changes nothing: the result is already in lower case, holds no
  match of the URL or of the e-mail pattern, has single spaces only and no whitespace
  at either end.
\<close>

theorem preprocess_text_idempotent:
  "preprocess_text (preprocess_text x) = preprocess_text x"
proof -
  let ?y = "preprocess_text x"
  have "preprocess_text ?y = strip (collapse_whitespace (remove_emails (remove_urls (lower ?y))))"
    by (simp add: preprocess_text_def)
  also have "\<dots> = ?y"
    by (simp add: preprocess_text_lowered preprocess_text_normal
          url_free_fix email_free_fix collapsed_fix stripped_fix)
  finally show ?thesis .
qed

end
